theory Spec2Isabelle
  imports Complex_Main "HOL-Library.Multiset"
begin

section \<open>JavaScript primitives used by the rider pages\<close>

text \<open>
  Strings are ASCII strings (the sample data and the form values are ASCII); a JavaScript
  number that holds an integer is an \<open>int\<close>, and \<open>NaN\<close> and \<open>undefined\<close> are \<open>None\<close>:
  every comparison with either of them is false.
\<close>

definition isUpperAscii :: "char \<Rightarrow> bool" where
  "isUpperAscii c = (65 \<le> (of_char c :: nat) \<and> (of_char c :: nat) \<le> 90)"

definition toLowerChar :: "char \<Rightarrow> char" where
  "toLowerChar c = (if isUpperAscii c then char_of ((of_char c :: nat) + 32) else c)"

definition toUpperChar :: "char \<Rightarrow> char" where
  "toUpperChar c =
     (if 97 \<le> (of_char c :: nat) \<and> (of_char c :: nat) \<le> 122
      then char_of ((of_char c :: nat) - 32) else c)"

definition toLowerCase :: "string \<Rightarrow> string" where
  "toLowerCase s = map toLowerChar s"

definition toUpperCase :: "string \<Rightarrow> string" where
  "toUpperCase s = map toUpperChar s"

definition startsWith :: "string \<Rightarrow> string \<Rightarrow> bool" where
  "startsWith s t = (take (length t) s = t)"

text \<open>\<open>s.includes(t)\<close>: \<open>t\<close> occurs in \<open>s\<close> at some position.\<close>

fun str_includes :: "string \<Rightarrow> string \<Rightarrow> bool" where
  "str_includes [] t = (t = [])"
| "str_includes (c # cs) t = (startsWith (c # cs) t \<or> str_includes cs t)"

text \<open>\<open>s.split(sep)\<close> for a separator of one character; the result is never empty.\<close>

fun str_split :: "char \<Rightarrow> string \<Rightarrow> string list" where
  "str_split sep [] = [[]]"
| "str_split sep (c # cs) =
     (if c = sep then [] # str_split sep cs
      else (case str_split sep cs of
              [] \<Rightarrow> [[c]]
            | w # ws \<Rightarrow> (c # w) # ws))"

text \<open>\<open>xs[i]\<close>: \<open>undefined\<close> out of range.\<close>

fun elem_at :: "'a list \<Rightarrow> nat \<Rightarrow> 'a option" where
  "elem_at [] i = None"
| "elem_at (x # xs) 0 = Some x"
| "elem_at (x # xs) (Suc i) = elem_at xs i"

definition isWhiteSpace :: "char \<Rightarrow> bool" where
  "isWhiteSpace c = ((of_char c :: nat) = 32 \<or> (9 \<le> (of_char c :: nat) \<and> (of_char c :: nat) \<le> 13))"

definition digitVal :: "char \<Rightarrow> nat option" where
  "digitVal c =
     (let n = (of_char c :: nat) in
      if 48 \<le> n \<and> n \<le> 57 then Some (n - 48)
      else if 97 \<le> n \<and> n \<le> 122 then Some (n - 87)
      else if 65 \<le> n \<and> n \<le> 90 then Some (n - 55)
      else None)"

definition isRadixDigit :: "nat \<Rightarrow> char \<Rightarrow> bool" where
  "isRadixDigit radix c = (case digitVal c of None \<Rightarrow> False | Some d \<Rightarrow> d < radix)"

definition digitsValue :: "nat \<Rightarrow> string \<Rightarrow> nat" where
  "digitsValue radix ds =
     foldl (\<lambda>acc c. acc * radix + (case digitVal c of None \<Rightarrow> 0 | Some d \<Rightarrow> d)) 0 ds"

text \<open>
  \<open>Number.parseInt(s)\<close> with no radix: leading white space is skipped, a sign is read, a
  \<open>0x\<close> prefix selects radix 16, the longest run of digits is the value, and no digit
  at all gives \<open>NaN\<close>.
\<close>

definition parseInt :: "string \<Rightarrow> int option" where
  "parseInt s =
     (let s1 = dropWhile isWhiteSpace s;
          neg = (case s1 of [] \<Rightarrow> False | c # r \<Rightarrow> c = CHR ''-'');
          s2 = (case s1 of [] \<Rightarrow> s1
                | c # r \<Rightarrow> if c = CHR ''-'' \<or> c = CHR ''+'' then r else s1);
          hex = (case s2 of a # b # r \<Rightarrow> a = CHR ''0'' \<and> (b = CHR ''x'' \<or> b = CHR ''X'')
                 | _ \<Rightarrow> False);
          radix = (if hex then 16 else 10);
          s3 = (if hex then drop 2 s2 else s2);
          ds = takeWhile (isRadixDigit radix) s3
      in if ds = [] then None
         else Some ((if neg then - 1 else 1) * int (digitsValue radix ds)))"

text \<open>\<open>parseInt(undefined)\<close> reads the text "undefined" and is \<open>NaN\<close>.\<close>

definition parseIntU :: "string option \<Rightarrow> int option" where
  "parseIntU v = (case v of None \<Rightarrow> None | Some s \<Rightarrow> parseInt s)"

definition num_at :: "int option list \<Rightarrow> nat \<Rightarrow> int option" where
  "num_at xs i = (case elem_at xs i of None \<Rightarrow> None | Some v \<Rightarrow> v)"

definition js_ge :: "int option \<Rightarrow> int option \<Rightarrow> bool" where
  "js_ge a b =
     (case a of None \<Rightarrow> False
      | Some x \<Rightarrow> (case b of None \<Rightarrow> False | Some y \<Rightarrow> y \<le> x))"

definition js_le :: "int option \<Rightarrow> int option \<Rightarrow> bool" where
  "js_le a b =
     (case a of None \<Rightarrow> False
      | Some x \<Rightarrow> (case b of None \<Rightarrow> False | Some y \<Rightarrow> x \<le> y))"

text \<open>
  \<open>xs.sort(cmp)\<close>: a stable sort (ECMAScript 2019), here by insertion from the right;
  an element goes before the first one that the comparator does not put ahead of it.
\<close>

fun js_insert :: "('a \<Rightarrow> 'a \<Rightarrow> int) \<Rightarrow> 'a \<Rightarrow> 'a list \<Rightarrow> 'a list" where
  "js_insert cmp x [] = [x]"
| "js_insert cmp x (y # ys) =
     (if cmp x y \<le> 0 then x # y # ys else y # js_insert cmp x ys)"

definition js_sort :: "('a \<Rightarrow> 'a \<Rightarrow> int) \<Rightarrow> 'a list \<Rightarrow> 'a list" where
  "js_sort cmp xs = foldr (js_insert cmp) xs []"

text \<open>Decimal text of a natural number, as a template literal prints \<open>Date.now()\<close>.\<close>

fun decimal :: "nat \<Rightarrow> string" where
  "decimal n =
     (if n < 10 then [char_of (48 + n)]
      else decimal (n div 10) @ [char_of (48 + n mod 10)])"

declare decimal.simps [simp del]

section \<open>The rider dashboard: routes, search and booking\<close>

text \<open>
  A route of \<open>allRoutes\<close> and a booking of the dashboard; the fields carry the prefix
  \<open>r_\<close> or \<open>b_\<close>, since the two objects share field names.
\<close>

record route =
  r_id :: string
  r_driverName :: string
  r_driverRating :: real
  r_driverPhoto :: string
  r_vehicleInfo :: string
  r_from :: string
  r_to :: string
  r_passingStops :: "string list"
  r_departureTime :: string
  r_availableSeats :: int
  r_pricePerSeat :: int
  r_aiScore :: int
  r_bookings :: int

record booking =
  b_id :: string
  b_routeId :: string
  b_driverName :: string
  b_from :: string
  b_to :: string
  b_departureTime :: string
  b_status :: string
  b_seats :: int
  b_totalPrice :: int
  b_date :: string

record searchParams =
  sp_from :: string
  sp_to :: string
  sp_timeRange :: string

text \<open>
  The state of \<open>RiderDashboard\<close>, together with the module-level array \<open>allRoutes\<close>
  that its handlers read.
\<close>

record dashboard =
  allRoutes :: "route list"
  activeTab :: string
  searchResults :: "route list"
  hasSearched :: bool
  bookings :: "booking list"

definition route1 :: route where
  "route1 = \<lparr> r_id = ''1'', r_driverName = ''Chidi O.'', r_driverRating = 49 / 10,
     r_driverPhoto = '''', r_vehicleInfo = ''Silver Honda Civic'', r_from = ''Ogba'',
     r_to = ''VI'', r_passingStops = [''Berger'', ''Ketu''], r_departureTime = ''6:30 AM'',
     r_availableSeats = 3, r_pricePerSeat = 1500, r_aiScore = 95, r_bookings = 2 \<rparr>"

definition route2 :: route where
  "route2 = \<lparr> r_id = ''2'', r_driverName = ''Amara K.'', r_driverRating = 48 / 10,
     r_driverPhoto = '''', r_vehicleInfo = ''Black Toyota Camry'', r_from = ''Ikeja'',
     r_to = ''Lekki'', r_passingStops = [''Obalende''], r_departureTime = ''7:00 AM'',
     r_availableSeats = 2, r_pricePerSeat = 2000, r_aiScore = 88, r_bookings = 1 \<rparr>"

definition route3 :: route where
  "route3 = \<lparr> r_id = ''3'', r_driverName = ''Tunde A.'', r_driverRating = 47 / 10,
     r_driverPhoto = '''', r_vehicleInfo = ''Blue Hyundai Elantra'', r_from = ''Surulere'',
     r_to = ''CMS'', r_passingStops = [''Yaba'', ''Oshodi''], r_departureTime = ''6:45 AM'',
     r_availableSeats = 4, r_pricePerSeat = 1200, r_aiScore = 92, r_bookings = 0 \<rparr>"

definition route4 :: route where
  "route4 = \<lparr> r_id = ''4'', r_driverName = ''Ngozi M.'', r_driverRating = 5,
     r_driverPhoto = '''', r_vehicleInfo = ''White Mercedes Sedan'', r_from = ''Festac'',
     r_to = ''Marina'', r_passingStops = [''Ajah'', ''Ikorodu''], r_departureTime = ''7:15 AM'',
     r_availableSeats = 2, r_pricePerSeat = 1800, r_aiScore = 96, r_bookings = 2 \<rparr>"

definition sampleRoutes :: "route list" where
  "sampleRoutes = [route1, route2, route3, route4]"

definition bookingBK001 :: booking where
  "bookingBK001 = \<lparr> b_id = ''BK001'', b_routeId = ''1'', b_driverName = ''Chidi O.'',
     b_from = ''Ogba'', b_to = ''VI'', b_departureTime = ''6:30 AM'', b_status = ''Confirmed'',
     b_seats = 1, b_totalPrice = 1500, b_date = ''Today'' \<rparr>"

definition initialDashboard :: dashboard where
  "initialDashboard = \<lparr> allRoutes = sampleRoutes, activeTab = ''search'',
     searchResults = [], hasSearched = False, bookings = [bookingBK001] \<rparr>"

subsection \<open>handleSearch\<close>

definition routeTime :: "route \<Rightarrow> int option" where
  "routeTime route = parseIntU (elem_at (str_split CHR '':'' (r_departureTime route)) 0)"

definition timeRangeHours :: "string \<Rightarrow> int option list" where
  "timeRangeHours timeRange =
     map (\<lambda>t. parseIntU (elem_at (str_split CHR '':'' t) 0)) (str_split CHR ''-'' timeRange)"

definition startTime :: "string \<Rightarrow> int option" where
  "startTime timeRange = num_at (timeRangeHours timeRange) 0"

definition endTime :: "string \<Rightarrow> int option" where
  "endTime timeRange = num_at (timeRangeHours timeRange) 1"

text \<open>The callback of \<open>allRoutes.filter\<close>.\<close>

definition routeMatches :: "searchParams \<Rightarrow> route \<Rightarrow> bool" where
  "routeMatches p route =
     (str_includes (toLowerCase (r_from route)) (toLowerCase (sp_from p)) \<and>
      str_includes (toLowerCase (r_to route)) (toLowerCase (sp_to p)) \<and>
      js_ge (routeTime route) (startTime (sp_timeRange p)) \<and>
      js_le (routeTime route) (endTime (sp_timeRange p)) \<and>
      r_availableSeats route > 0)"

text \<open>The comparator of \<open>filtered.sort\<close>.\<close>

definition byAiScore :: "route \<Rightarrow> route \<Rightarrow> int" where
  "byAiScore a b = r_aiScore b - r_aiScore a"

text \<open>The list \<open>filtered\<close> once sorted, for the routes array given.\<close>

definition searchRoutes :: "route list \<Rightarrow> searchParams \<Rightarrow> route list" where
  "searchRoutes routes p = js_sort byAiScore (filter (routeMatches p) routes)"

definition handleSearch :: "searchParams \<Rightarrow> dashboard \<Rightarrow> dashboard" where
  "handleSearch p st =
     st\<lparr> searchResults := searchRoutes (allRoutes st) p, hasSearched := True \<rparr>"

text \<open>
  What ECMAScript asks of \<open>xs.sort(cmp)\<close>, whatever algorithm the engine runs: the
  result is a rearrangement of the array, in the comparator's order, and elements that
  compare equal keep the order they had.
\<close>

definition isSortOf :: "('a \<Rightarrow> 'a \<Rightarrow> int) \<Rightarrow> 'a list \<Rightarrow> 'a list \<Rightarrow> bool" where
  "isSortOf cmp xs ys =
     (mset ys = mset xs \<and>
      sorted_wrt (\<lambda>a b. cmp a b \<le> 0) ys \<and>
      (\<forall>x. filter (\<lambda>y. cmp x y = 0) ys = filter (\<lambda>y. cmp x y = 0) xs))"

text \<open>
  One run of handleSearch on an engine that is only known to meet that: the state after
  the run holds some list that the engine's sort may give for the filtered routes.
\<close>

definition searchRun :: "searchParams \<Rightarrow> dashboard \<Rightarrow> dashboard \<Rightarrow> bool" where
  "searchRun p st st' =
     (\<exists>sorted. isSortOf byAiScore (filter (routeMatches p) (allRoutes st)) sorted \<and>
        st' = st\<lparr> searchResults := sorted, hasSearched := True \<rparr>)"

subsection \<open>Inputs used in the examples\<close>

definition ogbaQuery :: searchParams where
  "ogbaQuery = \<lparr> sp_from = ''Ogba'', sp_to = ''VI'', sp_timeRange = ''06:00-08:00'' \<rparr>"

definition ogQuery :: searchParams where
  "ogQuery = \<lparr> sp_from = ''og'', sp_to = ''v'', sp_timeRange = ''06:00-08:00'' \<rparr>"

text \<open>A route like route 1 that leaves at 8:45, after the window 06:00-08:00 has closed.\<close>

definition lateRoute :: route where
  "lateRoute = route1\<lparr> r_id := ''5'', r_departureTime := ''8:45 AM'' \<rparr>"

text \<open>
  A route with the score of route 1, fewer seats, a lower rating and a later identifier.
\<close>

definition lowSeatRoute :: route where
  "lowSeatRoute = route1\<lparr> r_id := ''5'', r_driverRating := 4, r_availableSeats := 1 \<rparr>"

text \<open>A route like route 1 that leaves at 6:30 in the evening.\<close>

definition eveningRoute :: route where
  "eveningRoute = route1\<lparr> r_id := ''6'', r_departureTime := ''6:30 PM'' \<rparr>"

text \<open>A route like route 1 that leaves at 5:10, before the window 05:30-09:00 opens.\<close>

definition earlyRoute :: route where
  "earlyRoute = route1\<lparr> r_id := ''7'', r_departureTime := ''5:10 AM'' \<rparr>"

definition earlyQuery :: searchParams where
  "earlyQuery = \<lparr> sp_from = ''Ogba'', sp_to = ''VI'', sp_timeRange = ''05:30-09:00'' \<rparr>"

text \<open>A route like route 1 with a higher score, and a routes array with a tie in it.\<close>

definition topRoute :: route where
  "topRoute = route1\<lparr> r_id := ''8'', r_aiScore := 99 \<rparr>"

definition tieDashboard :: dashboard where
  "tieDashboard = initialDashboard\<lparr> allRoutes := [lowSeatRoute, route1, topRoute] \<rparr>"

subsection \<open>The time window as the specification words it\<close>

text \<open>
  Minutes since midnight of a clock text such as \<open>6:30 AM\<close>, \<open>06:30\<close> or \<open>18:05\<close>, and
  the test that a departure lies outside a window \<open>HH:MM-HH:MM\<close>. These two follow the
  specification's words (a departure time and a requested window); handleSearch does
  not use them.
\<close>

definition spec_minutes :: "string \<Rightarrow> int option" where
  "spec_minutes s =
     (case str_split CHR '':'' s of
        [h, m] \<Rightarrow>
          (case parseInt h of None \<Rightarrow> None
           | Some hh \<Rightarrow>
              (case parseInt m of None \<Rightarrow> None
               | Some mm \<Rightarrow>
                  Some ((if str_includes (toLowerCase m) ''pm'' \<and> hh < 12 then hh + 12
                         else if str_includes (toLowerCase m) ''am'' \<and> hh = 12 then 0
                         else hh) * 60 + mm)))
      | _ \<Rightarrow> None)"

definition spec_outsideWindow :: "string \<Rightarrow> string \<Rightarrow> bool" where
  "spec_outsideWindow departure timeRange =
     (case spec_minutes departure of None \<Rightarrow> False
      | Some d \<Rightarrow>
         (case map spec_minutes (str_split CHR ''-'' timeRange) of
            [Some a, Some b] \<Rightarrow> d < a \<or> b < d
          | _ \<Rightarrow> False))"

subsection \<open>handleBooking and the seat selector of BookingModal\<close>

definition findRoute :: "string \<Rightarrow> route list \<Rightarrow> route option" where
  "findRoute routeId routes = find (\<lambda>r. r_id r = routeId) routes"

text \<open>The object \<open>newBooking\<close>; \<open>now\<close> is the value of \<open>Date.now()\<close>.\<close>

definition newBooking :: "string \<Rightarrow> route \<Rightarrow> int \<Rightarrow> nat \<Rightarrow> booking" where
  "newBooking routeId route seats now =
     \<lparr> b_id = ''BK'' @ decimal now, b_routeId = routeId, b_driverName = r_driverName route,
       b_from = r_from route, b_to = r_to route, b_departureTime = r_departureTime route,
       b_status = ''Confirmed'', b_seats = seats,
       b_totalPrice = r_pricePerSeat route * seats, b_date = ''Today'' \<rparr>"

definition handleBooking :: "string \<Rightarrow> int \<Rightarrow> nat \<Rightarrow> dashboard \<Rightarrow> dashboard" where
  "handleBooking routeId seats now st =
     (case findRoute routeId (allRoutes st) of
        None \<Rightarrow> st
      | Some route \<Rightarrow>
          st\<lparr> bookings := bookings st @ [newBooking routeId route seats now],
              activeTab := ''bookings'' \<rparr>)"

text \<open>The capacity that SearchResults shows for a route.\<close>

definition capacity :: "route \<Rightarrow> int" where
  "capacity route = r_bookings route + r_availableSeats route"

definition availableOf :: "string \<Rightarrow> dashboard \<Rightarrow> int option" where
  "availableOf routeId st = map_option r_availableSeats (findRoute routeId (allRoutes st))"

text \<open>
  BookingModal: the seat count starts at 1, the minus button sets
  \<open>Math.max(1, seats - 1)\<close>, the plus button sets
  \<open>Math.min(route.availableSeats, seats + 1)\<close>, and the confirm button hands the count
  to \<open>onBook(selectedRoute.id, seats)\<close>, which is handleBooking.
\<close>

datatype click = Minus | Plus

fun clickSeats :: "route \<Rightarrow> int \<Rightarrow> click \<Rightarrow> int" where
  "clickSeats route seats Minus = max 1 (seats - 1)"
| "clickSeats route seats Plus = min (r_availableSeats route) (seats + 1)"

definition modalSeats :: "route \<Rightarrow> click list \<Rightarrow> int" where
  "modalSeats route clicks = foldl (clickSeats route) 1 clicks"

definition onConfirm :: "route \<Rightarrow> click list \<Rightarrow> nat \<Rightarrow> dashboard \<Rightarrow> dashboard" where
  "onConfirm route clicks now st = handleBooking (r_id route) (modalSeats route clicks) now st"

section \<open>The checkout page and the Interswitch modal\<close>

datatype checkoutStep = Review | Payment | Confirmation

record bookingData =
  bd_from :: string
  bd_to :: string
  bd_driverName :: string
  bd_departureTime :: string
  bd_seats :: int
  bd_pricePerSeat :: int
  bd_totalPrice :: int

record checkout =
  step :: checkoutStep
  bookingData :: bookingData

definition initialCheckout :: checkout where
  "initialCheckout = \<lparr> step = Review,
     bookingData = \<lparr> bd_from = ''Ogba'', bd_to = ''VI'', bd_driverName = ''Chidi O.'',
       bd_departureTime = ''6:30 AM'', bd_seats = 1, bd_pricePerSeat = 1500,
       bd_totalPrice = 1500 \<rparr> \<rparr>"






text \<open>The gateway's answer to \<open>onComplete\<close>: the response code and the description.\<close>

record response =
  resp :: string
  desc :: "string option"









definition declined :: response where
  "declined = \<lparr> resp = ''Z6'', desc = Some ''Customer cancellation'' \<rparr>"

section \<open>The confirmation page\<close>

text \<open>\<open>s.substr(start, len)\<close> for a start and a length that are not negative.\<close>

definition substr :: "string \<Rightarrow> nat \<Rightarrow> nat \<Rightarrow> string" where
  "substr s start len = take len (drop start s)"

text \<open>
  The text after \<open>Seat Token ID:\<close>. \<open>now\<close> is the value of \<open>Date.now()\<close> there and
  \<open>random36\<close> is the text of \<open>Math.random().toString(36)\<close>, a parameter of the model.
\<close>

definition seatTokenId :: "nat \<Rightarrow> string \<Rightarrow> string" where
  "seatTokenId now random36 =
     ''SEAT-'' @ decimal now @ ''-'' @ toUpperCase (substr random36 2 9)"

record confirmation =
  cf_bookingId :: string
  cf_qrBookingId :: string
  cf_qrRoute :: string
  cf_qrTimestamp :: nat
  cf_seatTokenId :: string

text \<open>
  One render of BookingConfirmation. The clock is read three times, in this order: for
  the booking reference, for the QR code and for the seat token.
\<close>

definition BookingConfirmation ::
  "bookingData \<Rightarrow> nat \<Rightarrow> nat \<Rightarrow> nat \<Rightarrow> string \<Rightarrow> confirmation" where
  "BookingConfirmation bd now1 now2 now3 random36 =
     \<lparr> cf_bookingId = ''BK-'' @ decimal now1,
       cf_qrBookingId = ''BK-'' @ decimal now1,
       cf_qrRoute = bd_from bd @ ''-'' @ bd_to bd,
       cf_qrTimestamp = now2,
       cf_seatTokenId = seatTokenId now3 random36 \<rparr>"

section \<open>The BookingVerification contract\<close>

text \<open>
  The contract of the blockchain guide. A \<open>uint256\<close> is a natural number and the
  subtraction is checked, as Solidity 0.8 has it; an address is a number. A transaction
  runs a function to its end on its own, and one that reverts leaves the storage as it
  was.
\<close>

record BookingToken =
  bt_bookingId :: string
  bt_rider :: nat
  bt_timestamp :: nat
  bt_verified :: bool
  bt_redeemed :: bool

datatype event = TokenMinted string string nat | TokenRedeemed string nat

record contract =
  tokens :: "string \<Rightarrow> BookingToken"
  events :: "event list"

datatype failure = Revert string | Panic

definition emptyToken :: BookingToken where
  "emptyToken = \<lparr> bt_bookingId = [], bt_rider = 0, bt_timestamp = 0,
     bt_verified = False, bt_redeemed = False \<rparr>"

definition deployed :: contract where
  "deployed = \<lparr> tokens = (\<lambda>tokenId. emptyToken), events = [] \<rparr>"

definition mintToken ::
  "string \<Rightarrow> string \<Rightarrow> nat \<Rightarrow> nat \<Rightarrow> contract \<Rightarrow> failure + (contract \<times> bool)" where
  "mintToken tokenId bookingId rider blockTimestamp c =
     (if bt_timestamp (tokens c tokenId) \<noteq> 0 then Inl (Revert ''Token already exists'')
      else Inr (c\<lparr> tokens := (tokens c)(tokenId :=
                      \<lparr> bt_bookingId = bookingId, bt_rider = rider,
                        bt_timestamp = blockTimestamp, bt_verified = True,
                        bt_redeemed = False \<rparr>),
                   events := events c @ [TokenMinted tokenId bookingId rider] \<rparr>, True))"

definition redeemToken ::
  "string \<Rightarrow> nat \<Rightarrow> nat \<Rightarrow> contract \<Rightarrow> failure + (contract \<times> bool)" where
  "redeemToken tokenId blockTimestamp sender c =
     (if \<not> bt_timestamp (tokens c tokenId) > 0 then Inl (Revert ''Token does not exist'')
      else if bt_redeemed (tokens c tokenId) then Inl (Revert ''Token already redeemed'')
      else if blockTimestamp < bt_timestamp (tokens c tokenId) then Inl Panic
      else if \<not> blockTimestamp - bt_timestamp (tokens c tokenId) < 86400
        then Inl (Revert ''Token expired'')
      else Inr (c\<lparr> tokens := (tokens c)(tokenId := (tokens c tokenId)\<lparr> bt_redeemed := True \<rparr>),
                   events := events c @ [TokenRedeemed tokenId sender] \<rparr>, True))"

text \<open>
  The redeem transactions of several callers on one token, in the order in which the
  chain runs them; each call is a block timestamp and a sender. The result is the
  outcome of each call and the storage at the end.
\<close>

fun redeemAll ::
  "string \<Rightarrow> (nat \<times> nat) list \<Rightarrow> contract \<Rightarrow> (failure + bool) list \<times> contract" where
  "redeemAll tokenId [] c = ([], c)"
| "redeemAll tokenId ((blockTimestamp, sender) # calls) c =
     (case redeemToken tokenId blockTimestamp sender c of
        Inl e \<Rightarrow> (Inl e # fst (redeemAll tokenId calls c), snd (redeemAll tokenId calls c))
      | Inr (c', b) \<Rightarrow>
          (Inr b # fst (redeemAll tokenId calls c'), snd (redeemAll tokenId calls c')))"

text \<open>A token is valid at a block timestamp: it exists, is not redeemed and has not expired.\<close>

definition validAt :: "contract \<Rightarrow> string \<Rightarrow> nat \<Rightarrow> bool" where
  "validAt c tokenId blockTimestamp =
     (0 < bt_timestamp (tokens c tokenId) \<and> \<not> bt_redeemed (tokens c tokenId) \<and>
      bt_timestamp (tokens c tokenId) \<le> blockTimestamp \<and>
      blockTimestamp - bt_timestamp (tokens c tokenId) < 86400)"

text \<open>The storage after one token has been minted at block timestamp 1000.\<close>

definition minted :: contract where
  "minted = \<lparr> tokens = (tokens deployed)(''SEAT-1'' :=
                \<lparr> bt_bookingId = ''BK-1'', bt_rider = 7, bt_timestamp = 1000,
                  bt_verified = True, bt_redeemed = False \<rparr>),
              events = [TokenMinted ''SEAT-1'' ''BK-1'' 7] \<rparr>"

text \<open>A text that \<open>Math.random().toString(36)\<close> can give.\<close>

definition sampleRandom36 :: string where
  "sampleRandom36 = ''0.4fzyo82mvyr''"

section \<open>Library facts about the primitives\<close>

lemma set_js_insert: "set (js_insert cmp x ys) = insert x (set ys)"
  by (induction ys) auto

lemma set_js_sort: "set (js_sort cmp xs) = set xs"
  by (induction xs) (auto simp: js_sort_def set_js_insert)

lemma js_sort_Cons: "js_sort cmp (x # xs) = js_insert cmp x (js_sort cmp xs)"
  by (simp add: js_sort_def)

lemma startsWith_iff: "startsWith s t \<longleftrightarrow> (\<exists>b. s = t @ b)"
proof
  assume "startsWith s t"
  then have "s = t @ drop (length t) s"
    by (metis append_take_drop_id startsWith_def)
  then show "\<exists>b. s = t @ b" ..
next
  assume "\<exists>b. s = t @ b"
  then show "startsWith s t" by (auto simp: startsWith_def)
qed

lemma str_includes_iff: "str_includes s t \<longleftrightarrow> (\<exists>a b. s = a @ t @ b)"
proof (induction s)
  case Nil
  then show ?case by auto
next
  case (Cons c cs)
  show ?case
  proof
    assume "str_includes (c # cs) t"
    then consider "startsWith (c # cs) t" | "str_includes cs t" by auto
    then show "\<exists>a b. c # cs = a @ t @ b"
    proof cases
      case 1
      then obtain b where "c # cs = t @ b" by (auto simp: startsWith_iff)
      then have "c # cs = [] @ t @ b" by simp
      then show ?thesis by blast
    next
      case 2
      then obtain a b where "cs = a @ t @ b" using Cons.IH by blast
      then have "c # cs = (c # a) @ t @ b" by simp
      then show ?thesis by blast
    qed
  next
    assume "\<exists>a b. c # cs = a @ t @ b"
    then obtain a b where ab: "c # cs = a @ t @ b" by blast
    show "str_includes (c # cs) t"
    proof (cases a)
      case Nil
      with ab have "startsWith (c # cs) t" by (auto simp: startsWith_iff)
      then show ?thesis by simp
    next
      case (Cons x a')
      with ab have "cs = a' @ t @ b" by simp
      then have "str_includes cs t" using Cons.IH by blast
      then show ?thesis by simp
    qed
  qed
qed

lemma set_searchRoutes:
  "set (searchRoutes routes p) = {r \<in> set routes. routeMatches p r}"
  by (auto simp: searchRoutes_def set_js_sort)

lemma sorted_js_insert:
  "sorted_wrt (\<lambda>a b. r_aiScore b \<le> r_aiScore a) ys \<Longrightarrow>
   sorted_wrt (\<lambda>a b. r_aiScore b \<le> r_aiScore a) (js_insert byAiScore x ys)"
  by (induction ys) (auto simp: set_js_insert byAiScore_def)

lemma sorted_js_sort:
  "sorted_wrt (\<lambda>a b. r_aiScore b \<le> r_aiScore a) (js_sort byAiScore xs)"
  by (induction xs) (simp_all add: js_sort_Cons sorted_js_insert js_sort_def)

lemma filter_js_insert:
  "filter (\<lambda>r. r_aiScore r = k) (js_insert byAiScore x ys) =
   filter (\<lambda>r. r_aiScore r = k) (x # ys)"
  by (induction ys) (auto simp: byAiScore_def)

lemma filter_js_sort:
  "filter (\<lambda>r. r_aiScore r = k) (js_sort byAiScore xs) = filter (\<lambda>r. r_aiScore r = k) xs"
  by (induction xs) (simp_all add: js_sort_Cons filter_js_insert js_sort_def)

lemma search_ogba: "searchRoutes sampleRoutes ogbaQuery = [route1]"
  by code_simp

lemma search_og: "searchRoutes sampleRoutes ogQuery = [route1]"
  by code_simp

lemma search_late: "searchRoutes [lateRoute] ogbaQuery = [lateRoute]"
  by code_simp

lemma search_tie: "searchRoutes [lowSeatRoute, route1] ogbaQuery = [lowSeatRoute, route1]"
  by code_simp

section \<open>Search results\<close>

text \<open>
  C3. Whatever the query and whatever the routes array, no route in the list that
  handleSearch stores as search results has zero available seats: every result has a
  positive number of available seats.
\<close>

theorem search_excludes_zero_seats:
  "\<forall>r \<in> set (searchResults (handleSearch p st)). r_availableSeats r \<noteq> 0 \<and> 0 < r_availableSeats r"
  by (simp add: handleSearch_def set_searchRoutes routeMatches_def)

theorem search_excludes_zero_seats_witness:
  "route1 \<in> set (searchResults (handleSearch ogbaQuery initialDashboard)) \<and>
   r_availableSeats route1 \<noteq> 0 \<and> 0 < r_availableSeats route1"
proof -
  have m: "route1 \<in> set (searchResults (handleSearch ogbaQuery initialDashboard))"
    by (simp add: handleSearch_def initialDashboard_def search_ogba)
  from search_excludes_zero_seats [of ogbaQuery initialDashboard] m show ?thesis
    by blast
qed

text \<open>
  C10. Every route in the search results contains the query's origin in its origin and
  the query's destination in its destination, both compared in lower case: the lower-cased
  route name is some text, then the lower-cased query text, then some text. This holds
  for every query, with empty or non-empty origin and destination.
\<close>

theorem search_matches_by_substring:
  "\<forall>r \<in> set (searchResults (handleSearch p st)).
     (\<exists>a b. toLowerCase (r_from r) = a @ toLowerCase (sp_from p) @ b) \<and>
     (\<exists>a b. toLowerCase (r_to r) = a @ toLowerCase (sp_to p) @ b)"
  by (simp add: handleSearch_def set_searchRoutes routeMatches_def str_includes_iff)

theorem search_matches_by_substring_witness:
  "route1 \<in> set (searchResults (handleSearch ogQuery initialDashboard)) \<and>
   sp_from ogQuery \<noteq> [] \<and> sp_to ogQuery \<noteq> [] \<and>
   (\<exists>a b. toLowerCase (r_from route1) = a @ toLowerCase (sp_from ogQuery) @ b) \<and>
   (\<exists>a b. toLowerCase (r_to route1) = a @ toLowerCase (sp_to ogQuery) @ b)"
proof -
  have m: "route1 \<in> set (searchResults (handleSearch ogQuery initialDashboard))"
    by (simp add: handleSearch_def initialDashboard_def search_og)
  have n: "sp_from ogQuery \<noteq> [] \<and> sp_to ogQuery \<noteq> []"
    by (simp add: ogQuery_def)
  from search_matches_by_substring [of ogQuery initialDashboard] m n show ?thesis
    by blast
qed

lemma search_evening: "searchRoutes [eveningRoute] ogbaQuery = [eveningRoute]"
  by code_simp

lemma search_early: "searchRoutes [earlyRoute] earlyQuery = [earlyRoute]"
  by code_simp

text \<open>
  C5. The claim is that a route whose departure time is outside the requested window is
  not returned. handleSearch compares only the integers that start the three clock
  texts, and so returns such routes: a route that leaves at 8:45 AM for the window
  06:00-08:00, a route that leaves at 6:30 PM for the same window, and a route that
  leaves at 5:10 AM for the window 05:30-09:00.
\<close>

theorem search_window_failing_input:
  "spec_outsideWindow (r_departureTime lateRoute) (sp_timeRange ogbaQuery) \<and>
   searchResults (handleSearch ogbaQuery (initialDashboard\<lparr> allRoutes := [lateRoute] \<rparr>)) =
     [lateRoute] \<and>
   spec_outsideWindow (r_departureTime eveningRoute) (sp_timeRange ogbaQuery) \<and>
   searchResults (handleSearch ogbaQuery (initialDashboard\<lparr> allRoutes := [eveningRoute] \<rparr>)) =
     [eveningRoute] \<and>
   spec_outsideWindow (r_departureTime earlyRoute) (sp_timeRange earlyQuery) \<and>
   searchResults (handleSearch earlyQuery (initialDashboard\<lparr> allRoutes := [earlyRoute] \<rparr>)) =
     [earlyRoute]"
proof -
  have a: "spec_outsideWindow (r_departureTime lateRoute) (sp_timeRange ogbaQuery)"
    by code_simp
  have b: "spec_outsideWindow (r_departureTime eveningRoute) (sp_timeRange ogbaQuery)"
    by code_simp
  have c: "spec_outsideWindow (r_departureTime earlyRoute) (sp_timeRange earlyQuery)"
    by code_simp
  from a b c show ?thesis
    by (simp add: handleSearch_def search_late search_evening search_early)
qed

text \<open>
  C4, as the code has it. The search results are in descending order of aiScore, and
  the routes of any one score appear in the order they have in the routes array: the
  sort is stable and nothing else breaks a tie.
\<close>

theorem search_sorted_stable:
  "sorted_wrt (\<lambda>a b. r_aiScore b \<le> r_aiScore a) (searchResults (handleSearch p st)) \<and>
   filter (\<lambda>r. r_aiScore r = k) (searchResults (handleSearch p st)) =
     filter (\<lambda>r. r_aiScore r = k) (filter (routeMatches p) (allRoutes st))"
  by (simp add: handleSearch_def searchRoutes_def sorted_js_sort filter_js_sort)

text \<open>
  C4, as the specification words it, fails: of two routes with the same score, the one
  with fewer seats, the lower rating and the later identifier stays first when it is
  first in the routes array.
\<close>

theorem search_tie_break_counterexample:
  "searchResults (handleSearch ogbaQuery (initialDashboard\<lparr> allRoutes := [lowSeatRoute, route1] \<rparr>))
     = [lowSeatRoute, route1] \<and>
   r_aiScore lowSeatRoute = r_aiScore route1 \<and>
   r_availableSeats lowSeatRoute < r_availableSeats route1 \<and>
   r_driverRating lowSeatRoute < r_driverRating route1"
  by (simp add: handleSearch_def search_tie) (simp add: lowSeatRoute_def route1_def)

lemma mset_js_insert: "mset (js_insert cmp x ys) = add_mset x (mset ys)"
  by (induction ys) auto

lemma mset_js_sort: "mset (js_sort cmp xs) = mset xs"
  by (induction xs) (simp_all add: js_sort_Cons mset_js_insert js_sort_def)

lemma filter_equal_js_insert:
  "filter (\<lambda>y. byAiScore x y = 0) (js_insert byAiScore z ys) =
   filter (\<lambda>y. byAiScore x y = 0) (z # ys)"
  by (induction ys) (auto simp: byAiScore_def)

lemma filter_equal_js_sort:
  "filter (\<lambda>y. byAiScore x y = 0) (js_sort byAiScore xs) = filter (\<lambda>y. byAiScore x y = 0) xs"
  by (induction xs) (simp_all add: js_sort_Cons filter_equal_js_insert js_sort_def)

lemma sortedBy_js_sort: "sorted_wrt (\<lambda>a b. byAiScore a b \<le> 0) (js_sort byAiScore xs)"
  using sorted_js_sort [of xs] by (simp add: byAiScore_def)

lemma js_sort_isSortOf: "isSortOf byAiScore xs (js_sort byAiScore xs)"
  by (simp add: isSortOf_def mset_js_sort sortedBy_js_sort filter_equal_js_sort)

lemma sorted_stable_unique:
  "sorted_wrt (\<lambda>a b. r_aiScore b \<le> r_aiScore a) ys \<Longrightarrow>
   sorted_wrt (\<lambda>a b. r_aiScore b \<le> r_aiScore a) zs \<Longrightarrow>
   (\<And>k. filter (\<lambda>r. r_aiScore r = k) ys = filter (\<lambda>r. r_aiScore r = k) zs) \<Longrightarrow>
   ys = zs"
proof (induction ys arbitrary: zs)
  case Nil
  show ?case
  proof (cases zs)
    case Nil
    then show ?thesis by simp
  next
    case (Cons z zs')
    from Nil.prems(3) [of "r_aiScore z"] Cons show ?thesis by simp
  qed
next
  case (Cons y ys)
  show ?case
  proof (cases zs)
    case Nil
    from Cons.prems(3) [of "r_aiScore y"] Nil show ?thesis by simp
  next
    case zs: (Cons z zs')
    have ey: "filter (\<lambda>r. r_aiScore r = r_aiScore y) (y # ys) =
        filter (\<lambda>r. r_aiScore r = r_aiScore y) zs"
      by (rule Cons.prems(3))
    have "y \<in> set (filter (\<lambda>r. r_aiScore r = r_aiScore y) (y # ys))" by simp
    then have "y \<in> set (filter (\<lambda>r. r_aiScore r = r_aiScore y) zs)"
      by (simp only: ey)
    then have "y \<in> set zs" by simp
    then have yz: "r_aiScore y \<le> r_aiScore z"
      using Cons.prems(2) zs by auto
    have ez: "filter (\<lambda>r. r_aiScore r = r_aiScore z) (y # ys) =
        filter (\<lambda>r. r_aiScore r = r_aiScore z) zs"
      by (rule Cons.prems(3))
    have "z \<in> set (filter (\<lambda>r. r_aiScore r = r_aiScore z) zs)" using zs by simp
    then have "z \<in> set (filter (\<lambda>r. r_aiScore r = r_aiScore z) (y # ys))"
      by (simp only: ez)
    then have "z \<in> set (y # ys)" by (simp only: set_filter) blast
    then have zy: "r_aiScore z \<le> r_aiScore y"
      using Cons.prems(1) by auto
    from yz zy have eq: "r_aiScore y = r_aiScore z" by simp
    from Cons.prems(3) [of "r_aiScore y"] zs eq have hd: "y = z" by simp
    have tl: "filter (\<lambda>r. r_aiScore r = k) ys = filter (\<lambda>r. r_aiScore r = k) zs'" for k
      using Cons.prems(3) [of k] zs hd by (cases "r_aiScore z = k") simp_all
    have "ys = zs'"
      using Cons.IH [of zs'] Cons.prems(1) Cons.prems(2) zs tl by simp
    with hd zs show ?thesis by simp
  qed
qed

lemma isSortOf_unique:
  assumes "isSortOf byAiScore xs ys" and "isSortOf byAiScore xs zs"
  shows "ys = zs"
proof (rule sorted_stable_unique)
  show "sorted_wrt (\<lambda>a b. r_aiScore b \<le> r_aiScore a) ys"
    using assms(1) by (simp add: isSortOf_def byAiScore_def)
  show "sorted_wrt (\<lambda>a b. r_aiScore b \<le> r_aiScore a) zs"
    using assms(2) by (simp add: isSortOf_def byAiScore_def)
  fix k
  define x where "x = route1\<lparr> r_aiScore := k \<rparr>"
  have c: "(\<lambda>y. byAiScore x y = 0) = (\<lambda>r. r_aiScore r = k)"
    by (auto simp: byAiScore_def x_def)
  have "filter (\<lambda>y. byAiScore x y = 0) ys = filter (\<lambda>y. byAiScore x y = 0) zs"
    using assms by (simp add: isSortOf_def)
  then show "filter (\<lambda>r. r_aiScore r = k) ys = filter (\<lambda>r. r_aiScore r = k) zs"
    by (simp only: c)
qed

lemma searchRun_handleSearch: "searchRun p st (handleSearch p st)"
  unfolding searchRun_def handleSearch_def searchRoutes_def
  using js_sort_isSortOf by blast

lemma searchRun_allRoutes: "searchRun p st st' \<Longrightarrow> allRoutes st' = allRoutes st"
  by (auto simp: searchRun_def)

lemma searchRun_unique: "searchRun p st s1 \<Longrightarrow> searchRun p st s2 \<Longrightarrow> s1 = s2"
  by (auto simp: searchRun_def dest: isSortOf_unique)

lemma searchRun_results:
  "searchRun p st s1 \<Longrightarrow> searchResults s1 = searchResults (handleSearch p st)"
  using searchRun_unique [OF _ searchRun_handleSearch] by blast

text \<open>
  C8. Two runs of the search with the same query on the same routes array give the same
  list, element for element, ties included, on any engine whose sort is a stable sort by
  the comparator: handleSearch is such a run, any two such runs from one state end in
  the same state, and a run on the state that a first run left stores the list that the
  first run stored.
\<close>

theorem search_deterministic:
  "searchRun p st (handleSearch p st) \<and>
   (searchRun p st s1 \<and> searchRun p st s2 \<longrightarrow> s1 = s2) \<and>
   (searchRun p st s1 \<and> searchRun p s1 s2 \<longrightarrow> searchResults s2 = searchResults s1)"
proof (intro conjI impI)
  show "searchRun p st (handleSearch p st)" by (rule searchRun_handleSearch)
next
  assume "searchRun p st s1 \<and> searchRun p st s2"
  then show "s1 = s2" using searchRun_unique by blast
next
  assume a: "searchRun p st s1 \<and> searchRun p s1 s2"
  from a have a1: "searchRun p st s1" and a2: "searchRun p s1 s2" by simp_all
  have r: "allRoutes s1 = allRoutes st" using a1 by (rule searchRun_allRoutes)
  have "searchResults s2 = searchResults (handleSearch p s1)"
    using a2 by (rule searchRun_results)
  also have "\<dots> = searchResults (handleSearch p st)"
    using r by (simp add: handleSearch_def)
  also have "\<dots> = searchResults s1" using a1 by (rule searchRun_results [symmetric])
  finally show "searchResults s2 = searchResults s1" .
qed

lemma search_tie3:
  "searchRoutes [lowSeatRoute, route1, topRoute] ogbaQuery = [topRoute, lowSeatRoute, route1]"
  by code_simp

theorem search_deterministic_witness:
  "searchRun ogbaQuery tieDashboard (handleSearch ogbaQuery tieDashboard) \<and>
   searchRun ogbaQuery (handleSearch ogbaQuery tieDashboard)
     (handleSearch ogbaQuery (handleSearch ogbaQuery tieDashboard)) \<and>
   searchResults (handleSearch ogbaQuery (handleSearch ogbaQuery tieDashboard)) =
     [topRoute, lowSeatRoute, route1] \<and>
   searchResults (handleSearch ogbaQuery tieDashboard) = [topRoute, lowSeatRoute, route1]"
proof -
  have r: "searchResults (handleSearch ogbaQuery tieDashboard) = [topRoute, lowSeatRoute, route1]"
    by (simp add: handleSearch_def tieDashboard_def search_tie3)
  from search_deterministic [of ogbaQuery tieDashboard "handleSearch ogbaQuery tieDashboard"
         "handleSearch ogbaQuery (handleSearch ogbaQuery tieDashboard)"]
       search_deterministic [of ogbaQuery "handleSearch ogbaQuery tieDashboard"] r
  show ?thesis by simp
qed

section \<open>Booking\<close>

lemma findRoute_sample2: "findRoute ''2'' sampleRoutes = Some route2"
  by code_simp

lemma findRoute_sample9: "findRoute ''9'' sampleRoutes = None"
  by code_simp

lemma findRoute_initial2: "findRoute ''2'' (allRoutes initialDashboard) = Some route2"
  by (simp add: initialDashboard_def findRoute_sample2)

lemma available_initial2: "availableOf ''2'' initialDashboard = Some 2"
  by (simp add: availableOf_def findRoute_initial2) (simp add: route2_def)

lemma handleBooking_allRoutes: "allRoutes (handleBooking routeId seats now st) = allRoutes st"
  by (simp add: handleBooking_def split: option.splits)

lemma modalSeats_bounds:
  "1 \<le> r_availableSeats route \<Longrightarrow> 1 \<le> s \<Longrightarrow> s \<le> r_availableSeats route \<Longrightarrow>
   1 \<le> foldl (clickSeats route) s clicks \<and>
   foldl (clickSeats route) s clicks \<le> r_availableSeats route"
proof (induction clicks arbitrary: s)
  case Nil
  then show ?case by simp
next
  case (Cons c clicks)
  have "1 \<le> clickSeats route s c \<and> clickSeats route s c \<le> r_availableSeats route"
    using Cons.prems by (cases c) auto
  then show ?case using Cons.IH [of "clickSeats route s c"] Cons.prems(1) by simp
qed

lemma modalSeats_route2: "modalSeats route2 [Plus, Plus, Plus] = 2"
  by (simp add: modalSeats_def route2_def)

text \<open>
  C1, as the code has it. A booking changes no route: the routes array, and with it
  every route's available seats and the capacity shown for it (bookings plus available
  seats), is after handleBooking what it was before. When the route is found, one
  booking is appended, for the seats asked and the price per seat times the seats.
\<close>

theorem booking_leaves_seats:
  "allRoutes (handleBooking routeId seats now st) = allRoutes st \<and>
   map capacity (allRoutes (handleBooking routeId seats now st)) = map capacity (allRoutes st) \<and>
   availableOf rid (handleBooking routeId seats now st) = availableOf rid st \<and>
   (findRoute routeId (allRoutes st) = Some route \<longrightarrow>
      bookings (handleBooking routeId seats now st) =
        bookings st @ [newBooking routeId route seats now] \<and>
      b_seats (newBooking routeId route seats now) = seats \<and>
      b_totalPrice (newBooking routeId route seats now) = r_pricePerSeat route * seats)"
  by (simp add: handleBooking_def availableOf_def newBooking_def split: option.splits)

theorem booking_leaves_seats_witness:
  "findRoute ''2'' (allRoutes initialDashboard) = Some route2 \<and>
   bookings (handleBooking ''2'' 2 5 initialDashboard) =
     bookings initialDashboard @ [newBooking ''2'' route2 2 5] \<and>
   availableOf ''2'' (handleBooking ''2'' 2 5 initialDashboard) = Some 2"
  using booking_leaves_seats [of "''2''" 2 5 initialDashboard "''2''" route2]
    findRoute_initial2 available_initial2
  by simp

text \<open>
  C1, as the specification words it, fails: route 2 has 2 seats available, a booking of
  2 seats on it succeeds, and the route still has 2 seats available, not 0.
\<close>

theorem booking_decrement_counterexample:
  "availableOf ''2'' initialDashboard = Some 2 \<and>
   bookings (handleBooking ''2'' 2 5 initialDashboard) =
     bookings initialDashboard @ [newBooking ''2'' route2 2 5] \<and>
   availableOf ''2'' (handleBooking ''2'' 2 5 initialDashboard) = Some 2 \<and>
   availableOf ''2'' (handleBooking ''2'' 2 5 initialDashboard) \<noteq> Some (2 - 2)"
proof -
  have b: "availableOf ''2'' (handleBooking ''2'' 2 5 initialDashboard) = Some 2"
    using available_initial2 by (simp add: availableOf_def handleBooking_allRoutes)
  show ?thesis using available_initial2 b
    by (simp add: handleBooking_def findRoute_initial2)
qed

text \<open>
  C2, as the code has it. handleBooking checks no capacity and has no error: when the
  route is found it appends the booking whatever the number of seats, and when the
  route is not found it leaves the state as it was. The only bound on the seats is in
  the modal: for a selected route with at least one seat available, the count that the
  modal hands over is at least 1 and at most the route's available seats, whatever
  buttons were pressed.
\<close>

theorem booking_never_refused:
  "(findRoute routeId (allRoutes st) = Some route \<longrightarrow>
      bookings (handleBooking routeId seats now st) =
        bookings st @ [newBooking routeId route seats now]) \<and>
   (findRoute routeId (allRoutes st) = None \<longrightarrow> handleBooking routeId seats now st = st) \<and>
   (1 \<le> r_availableSeats selected \<longrightarrow>
      1 \<le> modalSeats selected clicks \<and> modalSeats selected clicks \<le> r_availableSeats selected)"
  using modalSeats_bounds [of selected 1 clicks]
  by (simp add: handleBooking_def modalSeats_def)

theorem booking_never_refused_witness:
  "findRoute ''2'' (allRoutes initialDashboard) = Some route2 \<and>
   bookings (handleBooking ''2'' 5 6 initialDashboard) =
     bookings initialDashboard @ [newBooking ''2'' route2 5 6] \<and>
   findRoute ''9'' (allRoutes initialDashboard) = None \<and>
   handleBooking ''9'' 5 6 initialDashboard = initialDashboard \<and>
   1 \<le> r_availableSeats route2 \<and> modalSeats route2 [Plus, Plus, Plus] = 2 \<and>
   modalSeats route2 [Plus, Plus, Plus] \<le> r_availableSeats route2"
proof -
  have n: "findRoute ''9'' (allRoutes initialDashboard) = None"
    by (simp add: initialDashboard_def findRoute_sample9)
  have a: "1 \<le> r_availableSeats route2" by (simp add: route2_def)
  from booking_never_refused [of "''2''" initialDashboard route2 5 6 route2 "[Plus, Plus, Plus]"]
       booking_never_refused [of "''9''" initialDashboard route2 5 6 route2 "[Plus, Plus, Plus]"]
       findRoute_initial2 n a modalSeats_route2
  show ?thesis by simp
qed

text \<open>
  C2, as the specification words it, fails: route 2 has 2 seats available; a booking of
  2 seats and then a booking of 1 seat on it are both appended, availability is still
  2 in between, and a single booking of 3 seats is appended as well.
\<close>

theorem booking_capacity_counterexample:
  "availableOf ''2'' initialDashboard = Some 2 \<and>
   availableOf ''2'' (handleBooking ''2'' 2 5 initialDashboard) = Some 2 \<and>
   bookings (handleBooking ''2'' 1 6 (handleBooking ''2'' 2 5 initialDashboard)) =
     [bookingBK001, newBooking ''2'' route2 2 5, newBooking ''2'' route2 1 6] \<and>
   bookings (handleBooking ''2'' 3 5 initialDashboard) =
     [bookingBK001, newBooking ''2'' route2 3 5]"
proof -
  have b: "availableOf ''2'' (handleBooking ''2'' 2 5 initialDashboard) = Some 2"
    using available_initial2 by (simp add: availableOf_def handleBooking_allRoutes)
  have i: "bookings initialDashboard = [bookingBK001]"
    by (simp add: initialDashboard_def)
  have c: "bookings (handleBooking ''2'' 2 5 initialDashboard) =
      [bookingBK001, newBooking ''2'' route2 2 5]"
    by (simp add: handleBooking_def findRoute_initial2 i)
  have d: "bookings (handleBooking ''2'' 1 6 (handleBooking ''2'' 2 5 initialDashboard)) =
      [bookingBK001, newBooking ''2'' route2 2 5, newBooking ''2'' route2 1 6]"
    by (simp add: handleBooking_def [of "''2''" 1] handleBooking_allRoutes findRoute_initial2 c)
  have e: "bookings (handleBooking ''2'' 3 5 initialDashboard) =
      [bookingBK001, newBooking ''2'' route2 3 5]"
    by (simp add: handleBooking_def findRoute_initial2 i)
  show ?thesis using available_initial2 b d e by simp
qed

section \<open>Payment\<close>


section \<open>The seat token\<close>

lemma of_char_digit: "d < 10 \<Longrightarrow> (of_char (char_of (48 + d :: nat)) :: nat) = 48 + d"
  by simp

lemma digitVal_digit: "d < 10 \<Longrightarrow> digitVal (char_of (48 + d :: nat)) = Some d"
  by (simp add: digitVal_def)

lemma digitsValue_snoc:
  "digitsValue radix (ds @ [c]) =
     digitsValue radix ds * radix + (case digitVal c of None \<Rightarrow> 0 | Some d \<Rightarrow> d)"
  by (simp add: digitsValue_def)

text \<open>Reading the decimal text of a number gives the number back.\<close>

lemma digitsValue_decimal: "digitsValue 10 (decimal n) = n"
proof (induction n rule: decimal.induct)
  case (1 n)
  show ?case
  proof (cases "n < 10")
    case True
    then show ?thesis
      by (subst decimal.simps) (simp add: digitsValue_def digitVal_digit)
  next
    case False
    have m: "n mod 10 < 10" by simp
    have "digitsValue 10 (decimal n) =
            digitsValue 10 (decimal (n div 10)) * 10 + n mod 10"
      using False by (subst decimal.simps) (simp add: digitsValue_snoc digitVal_digit [OF m])
    then show ?thesis using 1 False by simp
  qed
qed

lemma decimal_no_dash: "CHR ''-'' \<notin> set (decimal n)"
proof (induction n rule: decimal.induct)
  case (1 n)
  have ne: "d < 10 \<Longrightarrow> char_of (48 + d :: nat) \<noteq> CHR ''-''" for d
  proof
    assume "d < 10" and "char_of (48 + d) = CHR ''-''"
    then have "(of_char (char_of (48 + d :: nat)) :: nat) = of_char (CHR ''-'')" by simp
    with \<open>d < 10\<close> show False by (simp only: of_char_digit) simp
  qed
  show ?case
  proof (cases "n < 10")
    case True
    then show ?thesis using ne [of n] by (subst decimal.simps) auto
  next
    case False
    have m: "n mod 10 < 10" by simp
    show ?thesis using False 1 ne [OF m] by (subst decimal.simps) auto
  qed
qed

lemma split_at_dash:
  "CHR ''-'' \<notin> set xs \<Longrightarrow> CHR ''-'' \<notin> set ys \<Longrightarrow>
   xs @ CHR ''-'' # us = ys @ CHR ''-'' # vs \<Longrightarrow> xs = ys \<and> us = vs"
proof (induction xs arbitrary: ys)
  case Nil
  then show ?case by (cases ys) auto
next
  case (Cons x xs)
  then show ?case by (cases ys) auto
qed

lemma seatTokenId_inj:
  assumes "seatTokenId now random36 = seatTokenId now' random36'"
  shows "now = now' \<and> toUpperCase (substr random36 2 9) = toUpperCase (substr random36' 2 9)"
proof -
  from assms have "decimal now @ CHR ''-'' # toUpperCase (substr random36 2 9) =
      decimal now' @ CHR ''-'' # toUpperCase (substr random36' 2 9)"
    by (simp add: seatTokenId_def)
  then have "decimal now = decimal now' \<and>
      toUpperCase (substr random36 2 9) = toUpperCase (substr random36' 2 9)"
    by (rule split_at_dash [OF decimal_no_dash decimal_no_dash])
  then show ?thesis by (metis digitsValue_decimal)
qed

lemma token_1001: "seatTokenId 1001 sampleRandom36 = ''SEAT-1001-4FZYO82MV''"
  by (simp add: seatTokenId_def decimal.simps) code_simp

lemma token_1000: "seatTokenId 1000 sampleRandom36 = ''SEAT-1000-4FZYO82MV''"
  by (simp add: seatTokenId_def decimal.simps) code_simp

text \<open>
  C6, as the code has it. The seat token identifier of a render is made from the clock
  value read for it and the random text, and from nothing else: two renders with that
  clock value and that random text show the same identifier, whatever the booking data
  and whatever the clock value in the booking reference. The clock value and the nine
  characters kept of the random text can be read back from the identifier.
\<close>

theorem token_from_clock_and_random:
  "cf_seatTokenId (BookingConfirmation bd now1 now2 now3 random36) =
     cf_seatTokenId (BookingConfirmation bd' now1' now2' now3 random36) \<and>
   (seatTokenId now random36 = seatTokenId now' random36' \<longrightarrow>
      now = now' \<and> toUpperCase (substr random36 2 9) = toUpperCase (substr random36' 2 9))"
proof (intro conjI impI)
  show "cf_seatTokenId (BookingConfirmation bd now1 now2 now3 random36) =
     cf_seatTokenId (BookingConfirmation bd' now1' now2' now3 random36)"
    by (simp add: BookingConfirmation_def)
next
  assume "seatTokenId now random36 = seatTokenId now' random36'"
  then show "now = now'" by (rule seatTokenId_inj [THEN conjunct1])
next
  assume "seatTokenId now random36 = seatTokenId now' random36'"
  then show "toUpperCase (substr random36 2 9) = toUpperCase (substr random36' 2 9)"
    by (rule seatTokenId_inj [THEN conjunct2])
qed

theorem token_from_clock_and_random_witness:
  "seatTokenId 1001 sampleRandom36 = seatTokenId 1001 ''0.4fzyo82mvyrzzz'' \<and>
   toUpperCase (substr sampleRandom36 2 9) = toUpperCase (substr ''0.4fzyo82mvyrzzz'' 2 9) \<and>
   cf_seatTokenId (BookingConfirmation (bookingData initialCheckout) 1000 1000 1001 sampleRandom36) =
     ''SEAT-1001-4FZYO82MV''"
proof -
  have e: "seatTokenId 1001 sampleRandom36 = seatTokenId 1001 ''0.4fzyo82mvyrzzz''"
    by (simp add: seatTokenId_def decimal.simps) code_simp
  have t: "cf_seatTokenId (BookingConfirmation (bookingData initialCheckout) 1000 1000 1001
      sampleRandom36) = ''SEAT-1001-4FZYO82MV''"
    by (simp add: BookingConfirmation_def token_1001)
  from token_from_clock_and_random [of "bookingData initialCheckout" 1000 1000 1001 sampleRandom36
         "bookingData initialCheckout" 1000 1000 1001 1001 "''0.4fzyo82mvyrzzz''"] e t
  show ?thesis by simp
qed

text \<open>
  C6, as the specification words it, fails: two renders with the same booking
  reference and the same random text show different seat token identifiers, since the
  clock moved on between the two reads; the identifier is not made from the booking
  reference, and the same booking has two tokens.
\<close>

theorem token_booking_id_counterexample:
  "cf_bookingId (BookingConfirmation (bookingData initialCheckout) 1000 1000 1000 sampleRandom36) =
     cf_bookingId (BookingConfirmation (bookingData initialCheckout) 1000 1000 1001 sampleRandom36) \<and>
   cf_seatTokenId (BookingConfirmation (bookingData initialCheckout) 1000 1000 1000 sampleRandom36) \<noteq>
     cf_seatTokenId (BookingConfirmation (bookingData initialCheckout) 1000 1000 1001 sampleRandom36)"
  by (simp add: BookingConfirmation_def token_1000 token_1001)

section \<open>Redeeming a token\<close>

lemma redeemAll_redeemed:
  "0 < bt_timestamp (tokens c tokenId) \<Longrightarrow> bt_redeemed (tokens c tokenId) \<Longrightarrow>
   redeemAll tokenId calls c =
     (replicate (length calls) (Inl (Revert ''Token already redeemed'')), c)"
proof (induction calls)
  case Nil
  then show ?case by simp
next
  case (Cons call calls)
  obtain t s where call: "call = (t, s)" by (cases call)
  have "redeemToken tokenId t s c = Inl (Revert ''Token already redeemed'')"
    using Cons.prems by (simp add: redeemToken_def)
  then show ?case using Cons call by simp
qed

text \<open>
  C9. Take any number of redeem calls on one token, in any order the chain runs them,
  by any senders and at any block timestamps, the token being valid when the first of
  them runs. The first call returns true, every other call reverts with "Token already
  redeemed", and the token is redeemed at the end: of N calls exactly one succeeds and
  N - 1 fail.
\<close>

theorem redeem_exactly_once:
  "validAt c tokenId blockTimestamp \<Longrightarrow>
   fst (redeemAll tokenId ((blockTimestamp, sender) # calls) c) =
     Inr True # replicate (length calls) (Inl (Revert ''Token already redeemed'')) \<and>
   bt_redeemed (tokens (snd (redeemAll tokenId ((blockTimestamp, sender) # calls) c)) tokenId)"
proof -
  assume v: "validAt c tokenId blockTimestamp"
  define c' where "c' = c\<lparr> tokens := (tokens c)(tokenId := (tokens c tokenId)\<lparr> bt_redeemed := True \<rparr>),
                   events := events c @ [TokenRedeemed tokenId sender] \<rparr>"
  have r: "redeemToken tokenId blockTimestamp sender c = Inr (c', True)"
    using v by (simp add: redeemToken_def validAt_def c'_def)
  have "0 < bt_timestamp (tokens c' tokenId)" "bt_redeemed (tokens c' tokenId)"
    using v by (simp_all add: validAt_def c'_def)
  then have "redeemAll tokenId calls c' =
     (replicate (length calls) (Inl (Revert ''Token already redeemed'')), c')"
    by (rule redeemAll_redeemed)
  then show ?thesis using r \<open>bt_redeemed (tokens c' tokenId)\<close> by simp
qed

theorem redeem_exactly_once_witness:
  "validAt minted ''SEAT-1'' 2000 \<and>
   fst (redeemAll ''SEAT-1'' [(2000, 1), (2000, 2), (2001, 3)] minted) =
     [Inr True, Inl (Revert ''Token already redeemed''), Inl (Revert ''Token already redeemed'')]"
proof -
  have v: "validAt minted ''SEAT-1'' 2000"
    by (simp add: validAt_def minted_def)
  from redeem_exactly_once [OF v, of 1 "[(2000, 2), (2001, 3)]"] v
  show ?thesis by (simp add: numeral_2_eq_2)
qed

end
